theory Spec2Isabelle
  imports Complex_Main "HOL-Library.Sublist"
begin

section \<open>Strings\<close>

text \<open>
  A Python \<open>str\<close> is modelled as a \<open>string\<close> whose characters are the code points
  below 256 (Latin-1); \<open>length\<close>, slicing and \<open>in\<close> count code points, as Python does.
\<close>

text \<open>\<open>str.lower()\<close> on one character: A-Z and the Latin-1 capitals move up by 32.\<close>

definition lower_char :: "char \<Rightarrow> char" where
  "lower_char c =
     (let n = (of_char c :: nat)
      in if (65 \<le> n \<and> n \<le> 90) \<or> (192 \<le> n \<and> n \<le> 222 \<and> n \<noteq> 215)
         then char_of (n + 32) else c)"

definition lower :: "string \<Rightarrow> string" where
  "lower s = map lower_char s"

text \<open>Membership in the character class \<open>[A-Za-z0-9\-]\<close> of \<open>verify_claims_tool\<close>.\<close>

definition tok_char :: "char \<Rightarrow> bool" where
  "tok_char c =
     (let n = (of_char c :: nat)
      in (65 \<le> n \<and> n \<le> 90) \<or> (97 \<le> n \<and> n \<le> 122) \<or> (48 \<le> n \<and> n \<le> 57) \<or> n = 45)"

text \<open>
  \<open>re.findall(r"[A-Za-z0-9\-]+", s)\<close>: the maximal runs of class characters, left to
  right. \<open>cur\<close> is the run being read.
\<close>

fun findall_from :: "string \<Rightarrow> string \<Rightarrow> string list" where
  "findall_from cur [] = (if cur = [] then [] else [cur])"
| "findall_from cur (c # cs) =
     (if tok_char c then findall_from (cur @ [c]) cs
      else if cur = [] then findall_from [] cs
      else cur # findall_from [] cs)"

definition findall :: "string \<Rightarrow> string list" where
  "findall s = findall_from [] s"

text \<open>\<open>t in text\<close> on strings: \<open>t\<close> is a contiguous piece of \<open>text\<close>.\<close>

fun is_substr :: "string \<Rightarrow> string \<Rightarrow> bool" where
  "is_substr t [] = (t = [])"
| "is_substr t (c # cs) = (prefix t (c # cs) \<or> is_substr t cs)"

text \<open>\<open>str(n)\<close> for a non-negative integer, as the f-string of the note prints it.\<close>

function str_nat :: "nat \<Rightarrow> string" where
  "str_nat n =
     (if n < 10 then [char_of (48 + n)]
      else str_nat (n div 10) @ [char_of (48 + n mod 10)])"
  by pat_completeness auto
termination
  by (relation "measure id") auto

declare str_nat.simps [simp del]

section \<open>Claim verification (\<open>verify_claims_tool\<close>)\<close>

text \<open>
  A source is a dictionary (\<open>Dict[str, Any]\<close>): a document of the run state with the
  keys \<open>url\<close>, \<open>title\<close>, \<open>text\<close>, or an index hit with \<open>text\<close> and \<open>metadata\<close>
  (itself a dictionary with \<open>url\<close> and \<open>title\<close>). \<open>None\<close> stands for a missing key
  (or a Python \<open>None\<close> value, where \<open>.get\<close> followed by \<open>or\<close> treats both alike).
\<close>

record metadata =
  m_url :: "string option"
  m_title :: "string option"

record source =
  s_url :: "string option"
  s_title :: "string option"
  s_text :: "string option"
  s_metadata :: "metadata option"

text \<open>The dictionary appended per claim: keys \<open>claim\<close>, \<open>verdict\<close>, \<open>evidence_url\<close>, \<open>note\<close>.\<close>

record verified_claim =
  vc_claim :: string
  vc_verdict :: bool
  vc_evidence_url :: "string option"
  vc_note :: string

text \<open>\<open>[t for t in re.findall(..., c.lower()) if len(t) > 3]\<close>\<close>

definition claim_tokens :: "string \<Rightarrow> string list" where
  "claim_tokens c = filter (\<lambda>t. length t > 3) (findall (lower c))"

text \<open>\<open>(s.get('text','') or '').lower()\<close>\<close>

definition source_text :: "source \<Rightarrow> string" where
  "source_text s = lower (case s_text s of None \<Rightarrow> [] | Some t \<Rightarrow> t)"

text \<open>\<open>sum(1 for t in toks if t in text)\<close>\<close>

definition overlap :: "string list \<Rightarrow> source \<Rightarrow> nat" where
  "overlap toks s = length (filter (\<lambda>t. is_substr t (source_text s)) toks)"

text \<open>\<open>s.get('url') or (s.get('metadata') or {}).get('url')\<close>\<close>

definition source_url :: "source \<Rightarrow> string option" where
  "source_url s =
     (case s_url s of
        Some u \<Rightarrow> if u \<noteq> [] then Some u
                  else (case s_metadata s of None \<Rightarrow> None | Some m \<Rightarrow> m_url m)
      | None \<Rightarrow> (case s_metadata s of None \<Rightarrow> None | Some m \<Rightarrow> m_url m))"

text \<open>
  The inner loop over the sources, on the loop variables
  \<open>(verdict, url, overlap_max)\<close>.
\<close>

fun scan_sources ::
  "string list \<Rightarrow> int \<Rightarrow> source list \<Rightarrow> bool \<times> string option \<times> nat
     \<Rightarrow> bool \<times> string option \<times> nat" where
  "scan_sources toks min_overlap [] acc = acc"
| "scan_sources toks min_overlap (s # ss) (verdict, url, overlap_max) =
     (let ov = overlap toks s;
          url' = (if ov > overlap_max then source_url s else url);
          overlap_max' = (if ov > overlap_max then ov else overlap_max);
          verdict' = (if int ov \<ge> min_overlap then True else verdict)
      in scan_sources toks min_overlap ss (verdict', url', overlap_max'))"

definition verify_claim :: "source list \<Rightarrow> int \<Rightarrow> string \<Rightarrow> verified_claim" where
  "verify_claim sources min_overlap c =
     (case scan_sources (claim_tokens c) min_overlap sources (False, None, 0) of
        (verdict, url, overlap_max) \<Rightarrow>
          \<lparr>vc_claim = c, vc_verdict = verdict, vc_evidence_url = url,
           vc_note = ''overlap='' @ str_nat overlap_max\<rparr>)"

definition verify_claims_tool :: "string list \<Rightarrow> source list \<Rightarrow> int \<Rightarrow> verified_claim list" where
  "verify_claims_tool claims sources min_overlap = map (verify_claim sources min_overlap) claims"


section \<open>Evidence index (\<open>build_index\<close>, \<open>search_index\<close>)\<close>

text \<open>\<open>str.isspace\<close> on the code points below 256.\<close>

definition py_isspace :: "char \<Rightarrow> bool" where
  "py_isspace c =
     (let n = (of_char c :: nat)
      in (9 \<le> n \<and> n \<le> 13) \<or> (28 \<le> n \<and> n \<le> 32) \<or> n = 133 \<or> n = 160)"

text \<open>\<open>not txt.strip()\<close>: nothing is left once the white space is stripped.\<close>

definition blank :: "string \<Rightarrow> bool" where
  "blank txt = list_all py_isspace txt"

text \<open>\<open>(d.get("text") or "")[:3000]\<close>\<close>

definition truncated_text :: "source \<Rightarrow> string" where
  "truncated_text d = take 3000 (case s_text d of None \<Rightarrow> [] | Some t \<Rightarrow> t)"

text \<open>A langchain \<open>Document\<close>: page content and the metadata dictionary.\<close>

record lang_doc =
  page_content :: string
  ld_metadata :: metadata

text \<open>\<open>d.get("url","")\<close>: the empty string for a missing key.\<close>

definition get_or_empty :: "string option \<Rightarrow> string" where
  "get_or_empty v = (case v of None \<Rightarrow> [] | Some x \<Rightarrow> x)"

text \<open>The loop of \<open>build_index\<close> that collects \<open>lang_docs\<close>, skipping blank texts.\<close>

fun collect_lang_docs :: "source list \<Rightarrow> lang_doc list" where
  "collect_lang_docs [] = []"
| "collect_lang_docs (d # ds) =
     (let txt = truncated_text d
      in if blank txt then collect_lang_docs ds
         else \<lparr>page_content = txt,
               ld_metadata = \<lparr>m_url = Some (get_or_empty (s_url d)),
                               m_title = Some (get_or_empty (s_title d))\<rparr>\<rparr>
              # collect_lang_docs ds)"

text \<open>
  The returned dictionary: \<open>{"ok": False, "msg": ...}\<close> or
  \<open>{"ok": True, "key": ..., "size": ...}\<close>.
\<close>

datatype index_result = IndexFail string | IndexOk string nat

text \<open>
  The registry \<open>_INDEX_REG\<close> maps a key to the store built for it; a store is
  represented by the documents it was built from. \<open>now_ms\<close> is
  \<open>int(time.time()*1000)\<close>. \<open>OpenAIEmbeddings()\<close> and \<open>FAISS.from_documents\<close> are
  third-party calls: the model covers the runs in which they return.
\<close>

type_synonym registry = "string \<rightharpoonup> lang_doc list"

definition build_index :: "nat \<Rightarrow> source list \<Rightarrow> registry \<Rightarrow> index_result \<times> registry" where
  "build_index now_ms docs reg =
     (if docs = [] then (IndexFail ''no docs'', reg)
      else let lang_docs = collect_lang_docs docs
           in if lang_docs = [] then (IndexFail ''no valid text'', reg)
              else let key = ''idx_'' @ str_nat now_ms
                   in (IndexOk key (length lang_docs), reg(key \<mapsto> lang_docs)))"

text \<open>
  \<open>search_index\<close>: \<open>similar\<close> stands for the store's \<open>similarity_search\<close>; each
  hit is \<open>{"text": page_content, "metadata": metadata}\<close>.
\<close>

definition search_index ::
  "(lang_doc list \<Rightarrow> string \<Rightarrow> nat \<Rightarrow> lang_doc list) \<Rightarrow> registry \<Rightarrow> string \<Rightarrow> string \<Rightarrow> nat
     \<Rightarrow> source list" where
  "search_index similar reg key query k =
     (case reg key of
        None \<Rightarrow> []
      | Some store \<Rightarrow>
          map (\<lambda>d. \<lparr>s_url = None, s_title = None, s_text = Some (page_content d),
                     s_metadata = Some (ld_metadata d)\<rparr>)
              (similar store query k))"

section \<open>Growth estimate (\<open>_estimate_growth\<close>)\<close>

text \<open>
  A Python float is modelled by its value: a real number, an infinity or NaN. Arithmetic is
  exact (rounding and overflow are not modelled); comparisons with NaN are false and
  arithmetic on NaN gives NaN, as IEEE 754 has it.
\<close>

datatype pyfloat = NaN | NegInf | Fin real | PosInf

fun flt :: "pyfloat \<Rightarrow> pyfloat \<Rightarrow> bool" where
  "flt NaN _ = False"
| "flt _ NaN = False"
| "flt PosInf _ = False"
| "flt _ NegInf = False"
| "flt NegInf _ = True"
| "flt _ PosInf = True"
| "flt (Fin a) (Fin b) = (a < b)"

definition fgt :: "pyfloat \<Rightarrow> pyfloat \<Rightarrow> bool" where
  "fgt a b = flt b a"

text \<open>\<open>a >= b\<close>\<close>

definition fge :: "pyfloat \<Rightarrow> pyfloat \<Rightarrow> bool" where
  "fge a b = (a \<noteq> NaN \<and> b \<noteq> NaN \<and> \<not> flt a b)"

fun fadd :: "pyfloat \<Rightarrow> pyfloat \<Rightarrow> pyfloat" where
  "fadd NaN _ = NaN"
| "fadd _ NaN = NaN"
| "fadd PosInf NegInf = NaN"
| "fadd NegInf PosInf = NaN"
| "fadd PosInf _ = PosInf"
| "fadd _ PosInf = PosInf"
| "fadd NegInf _ = NegInf"
| "fadd _ NegInf = NegInf"
| "fadd (Fin a) (Fin b) = Fin (a + b)"

fun fneg :: "pyfloat \<Rightarrow> pyfloat" where
  "fneg NaN = NaN"
| "fneg NegInf = PosInf"
| "fneg PosInf = NegInf"
| "fneg (Fin a) = Fin (- a)"

definition fsub :: "pyfloat \<Rightarrow> pyfloat \<Rightarrow> pyfloat" where
  "fsub a b = fadd a (fneg b)"

text \<open>Multiplication by a finite constant, the only products of \<open>_estimate_growth\<close>.\<close>

fun fscale :: "pyfloat \<Rightarrow> real \<Rightarrow> pyfloat" where
  "fscale NaN _ = NaN"
| "fscale (Fin a) c = Fin (a * c)"
| "fscale PosInf c = (if c = 0 then NaN else if c > 0 then PosInf else NegInf)"
| "fscale NegInf c = (if c = 0 then NaN else if c > 0 then NegInf else PosInf)"

text \<open>
  The builtins \<open>max(a, b)\<close> and \<open>min(a, b)\<close> keep their first argument unless the
  second compares strictly better, so a NaN first argument is returned.
\<close>

definition py_max :: "pyfloat \<Rightarrow> pyfloat \<Rightarrow> pyfloat" where
  "py_max a b = (if fgt b a then b else a)"

definition py_min :: "pyfloat \<Rightarrow> pyfloat \<Rightarrow> pyfloat" where
  "py_min a b = (if flt b a then b else a)"

text \<open>\<open>np.clip(x, lo, hi)\<close> is \<open>minimum(maximum(x, lo), hi)\<close>; both propagate NaN.\<close>

definition np_maximum :: "pyfloat \<Rightarrow> pyfloat \<Rightarrow> pyfloat" where
  "np_maximum a b = (if a = NaN \<or> b = NaN then NaN else if flt a b then b else a)"

definition np_minimum :: "pyfloat \<Rightarrow> pyfloat \<Rightarrow> pyfloat" where
  "np_minimum a b = (if a = NaN \<or> b = NaN then NaN else if flt b a then b else a)"

definition np_clip :: "pyfloat \<Rightarrow> pyfloat \<Rightarrow> pyfloat \<Rightarrow> pyfloat" where
  "np_clip x lo hi = np_minimum (np_maximum x lo) hi"

text \<open>Truth value of \<open>kpi.get(k)\<close>: false for a missing key, \<open>None\<close> and zero.\<close>

definition truthy :: "pyfloat option \<Rightarrow> bool" where
  "truthy v = (case v of None \<Rightarrow> False | Some x \<Rightarrow> x \<noteq> Fin 0)"

type_synonym kpi = "string \<rightharpoonup> pyfloat"

definition gm_adjust :: "pyfloat \<Rightarrow> pyfloat" where
  "gm_adjust gm = py_min (py_max (fscale (fsub gm (Fin 0.35)) 0.5) (Fin (- 0.05))) (Fin 0.10)"

definition om_adjust :: "pyfloat \<Rightarrow> pyfloat" where
  "om_adjust om = py_min (py_max (fscale (fsub om (Fin 0.15)) 0.7) (Fin (- 0.05))) (Fin 0.12)"

definition estimate_growth :: "kpi \<Rightarrow> pyfloat option \<Rightarrow> pyfloat option \<Rightarrow> pyfloat" where
  "estimate_growth kpi momentum cagr =
     (let base = Fin 0.08;
          gm = kpi ''gross_margin''; om = kpi ''operating_margin''; pe = kpi ''p_e_ratio'';
          adj0 = Fin 0;
          adj1 = (case gm of Some g \<Rightarrow> if truthy gm then fadd adj0 (gm_adjust g) else adj0
                  | None \<Rightarrow> adj0);
          adj2 = (case om of Some m \<Rightarrow> if truthy om then fadd adj1 (om_adjust m) else adj1
                  | None \<Rightarrow> adj1);
          adj3 = (case pe of
                    Some p \<Rightarrow>
                      if truthy pe \<and> fgt p (Fin 0)
                      then (if flt p (Fin 20) then fadd adj2 (Fin 0.02)
                            else if fgt p (Fin 50) then fsub adj2 (Fin 0.03)
                            else adj2)
                      else adj2
                  | None \<Rightarrow> adj2);
          adj4 = (case cagr of
                    Some c \<Rightarrow> fadd adj3 (np_clip (fscale c 0.5) (Fin (- 0.05)) (Fin 0.10))
                  | None \<Rightarrow> adj3);
          adj5 = (case momentum of
                    Some m \<Rightarrow> fadd adj4 (np_clip (fscale m 0.3) (Fin (- 0.05)) (Fin 0.06))
                  | None \<Rightarrow> adj4)
      in py_max (fadd base adj5) (Fin 0.01))"

section \<open>Web search (\<open>web_search\<close>) and page fetch (\<open>http_fetch\<close>)\<close>

text \<open>A normalised hit: the dictionary \<open>{title, snippet, link}\<close> that \<open>norm\<close> builds.\<close>

record hit =
  h_title :: string
  h_snippet :: string
  h_link :: string

text \<open>A provider's raw result: a dictionary from key names to strings.\<close>

type_synonym raw_hit = "string \<rightharpoonup> string"

text \<open>\<open>a or b or ... or ""\<close> over \<open>.get\<close> results: the first non-empty value.\<close>

fun first_truthy :: "string option list \<Rightarrow> string" where
  "first_truthy [] = []"
| "first_truthy (None # vs) = first_truthy vs"
| "first_truthy (Some v # vs) = (if v \<noteq> [] then v else first_truthy vs)"

definition norm :: "raw_hit \<Rightarrow> hit" where
  "norm r =
     \<lparr>h_title = first_truthy [r ''title'', r ''t''],
      h_snippet = first_truthy [r ''snippet'', r ''body'', r ''abstract''],
      h_link = first_truthy [r ''link'', r ''href'', r ''url'']\<rparr>"

text \<open>
  What \<open>_ddg.invoke\<close> gives inside the first \<open>try\<close>: a list, a dictionary, some other
  value, or an exception (with its text) raised before \<open>out\<close> is extended.
\<close>

datatype ddg_reply = ReplyList "raw_hit list" | ReplyDict raw_hit | ReplyOther | ReplyError string

text \<open>
  What \<open>dd.text\<close> gives inside the second \<open>try\<close>: the hits it yields and, when it
  raises, the exception text; the hits yielded before the exception stay in \<open>out\<close>.
\<close>

type_synonym ddgs_reply = "raw_hit list \<times> string option"

text \<open>\<open>x.get("link") or x.get("title")\<close>\<close>

definition hit_key :: "hit \<Rightarrow> string" where
  "hit_key x = (if h_link x \<noteq> [] then h_link x else h_title x)"

text \<open>The de-duplication loop on its variables \<open>(seen, final)\<close>.\<close>

fun dedupe_loop :: "hit list \<Rightarrow> string set \<times> hit list \<Rightarrow> string set \<times> hit list" where
  "dedupe_loop [] acc = acc"
| "dedupe_loop (x # xs) (seen, final) =
     (let key = hit_key x
      in if key \<noteq> [] \<and> key \<notin> seen then dedupe_loop xs (insert key seen, final @ [x])
         else dedupe_loop xs (seen, final))"

text \<open>The slice \<open>xs[:n]\<close>: a negative \<open>n\<close> counts from the end.\<close>

definition py_take :: "int \<Rightarrow> 'a list \<Rightarrow> 'a list" where
  "py_take n xs = (if 0 \<le> n then take (nat n) xs else take (length xs - nat (- n)) xs)"

text \<open>
  \<open>ddg\<close> is \<open>None\<close> when \<open>_ddg\<close> could not be imported, else the search run;
  \<open>ddgs\<close> likewise for \<open>DDGS\<close>, called with the query and \<open>max_results*2\<close>.
\<close>

definition raw_results ::
  "(string \<Rightarrow> ddg_reply) option \<Rightarrow> (string \<Rightarrow> int \<Rightarrow> ddgs_reply) option \<Rightarrow> string \<Rightarrow> int \<Rightarrow> hit list" where
  "raw_results ddg ddgs query max_results =
     (let out1 =
            (case ddg of
               None \<Rightarrow> []
             | Some run \<Rightarrow>
                 (case run query of
                    ReplyList rs \<Rightarrow> map norm rs
                  | ReplyDict r \<Rightarrow> [norm r]
                  | ReplyOther \<Rightarrow> []
                  | ReplyError e \<Rightarrow> [\<lparr>h_title = ''ddg_error'', h_snippet = e, h_link = []\<rparr>]))
      in case ddgs of
           None \<Rightarrow> out1
         | Some txt \<Rightarrow>
             if length (filter (\<lambda>x. h_link x \<noteq> []) out1) < 3
             then (case txt query (max_results * 2) of
                     (hs, err) \<Rightarrow>
                       out1 @ map norm hs @
                       (case err of
                          None \<Rightarrow> []
                        | Some e \<Rightarrow> [\<lparr>h_title = ''ddgs_error'', h_snippet = e, h_link = []\<rparr>]))
             else out1)"

definition web_search ::
  "(string \<Rightarrow> ddg_reply) option \<Rightarrow> (string \<Rightarrow> int \<Rightarrow> ddgs_reply) option \<Rightarrow> string \<Rightarrow> int \<Rightarrow> hit list" where
  "web_search ddg ddgs query max_results =
     py_take max_results (snd (dedupe_loop (raw_results ddg ddgs query max_results) ({}, [])))"


record fetched =
  f_url :: string
  f_status :: int
  f_title :: string
  f_text :: string
  f_error :: "string option"


section \<open>Run state and the four stages\<close>

text \<open>
  A trace event: \<open>{'node': ..., 't': ...}\<close>, with a \<open>docs\<close> or \<open>claims\<close> count on the
  events that carry one. Times are the values of \<open>time.time()\<close>.
\<close>

record trace_event =
  ev_node :: string
  ev_t :: real
  ev_docs :: "nat option"
  ev_claims :: "nat option"

text \<open>
  \<open>ResearchState\<close> is a \<open>TypedDict\<close> with \<open>total=False\<close>: every key may be missing
  (\<open>None\<close>).
\<close>

record research_state =
  st_query :: "string option"
  st_ticker :: "string option"
  st_web_results :: "hit list option"
  st_docs :: "source list option"
  st_summary :: "string option"
  st_claims :: "string list option"
  st_checked_claims :: "verified_claim list option"
  st_report_html :: "string option"
  st_trace :: "trace_event list option"

text \<open>\<open>state.setdefault('trace', [])\<close> and \<open>state.get("docs",[]) or []\<close>\<close>

definition trace_of :: "research_state \<Rightarrow> trace_event list" where
  "trace_of st = (case st_trace st of None \<Rightarrow> [] | Some tr \<Rightarrow> tr)"

definition docs_of :: "research_state \<Rightarrow> source list" where
  "docs_of st = (case st_docs st of None \<Rightarrow> [] | Some ds \<Rightarrow> ds)"

definition start_event :: "string \<Rightarrow> real \<Rightarrow> trace_event" where
  "start_event name t = \<lparr>ev_node = name, ev_t = t, ev_docs = None, ev_claims = None\<rparr>"

subsection \<open>Researcher\<close>

text \<open>
  The tool nodes hand each tool's return value to the stage through a JSON round trip,
  which \<open>_parse_tool_content\<close> undoes: \<open>search\<close> is the \<open>web_search\<close> tool and
  \<open>fetch\<close> the \<open>http_fetch\<close> tool as the stage sees them.
\<close>

text \<open>The URLs of the fetch calls: the first six hits, those without a link skipped.\<close>

definition fetch_urls :: "hit list \<Rightarrow> string list" where
  "fetch_urls hits = filter (\<lambda>u. u \<noteq> []) (map h_link (take 6 hits))"

definition doc_of_fetched :: "fetched \<Rightarrow> source" where
  "doc_of_fetched d =
     \<lparr>s_url = Some (f_url d), s_title = Some (f_title d), s_text = Some (f_text d),
      s_metadata = None\<rparr>"

definition pseudo_doc :: "hit list \<Rightarrow> source" where
  "pseudo_doc hits =
     (case hits of
        [] \<Rightarrow> \<lparr>s_url = Some [], s_title = Some [], s_text = Some [], s_metadata = None\<rparr>
      | h # _ \<Rightarrow> \<lparr>s_url = Some (h_link h), s_title = Some (h_title h),
                  s_text = Some (h_snippet h), s_metadata = None\<rparr>)"

definition researcher_node ::
  "(string \<Rightarrow> int \<Rightarrow> hit list) \<Rightarrow> (string \<Rightarrow> int \<Rightarrow> fetched) \<Rightarrow> real \<Rightarrow> real
     \<Rightarrow> research_state \<Rightarrow> research_state" where
  "researcher_node search fetch t0 t1 state =
     (let trace1 = trace_of state @ [start_event ''researcher'' t0];
          q = first_truthy [st_query state, st_ticker state];
          hits = search q 10;
          urls = fetch_urls hits;
          docs = (if urls \<noteq> [] then map (\<lambda>u. doc_of_fetched (fetch u 15)) urls
                  else [pseudo_doc hits])
      in state\<lparr>st_web_results := Some hits, st_docs := Some docs,
               st_trace := Some (trace1 @
                 [\<lparr>ev_node = ''researcher:done'', ev_t = t1, ev_docs = Some (length docs),
                   ev_claims = None\<rparr>])\<rparr>)"

subsection \<open>Curator\<close>

text \<open>
  \<open>summarize\<close> stands for \<open>summarize_docs\<close> (a language-model call with a fallback),
  \<open>similar\<close> for the store's similarity search. The registry is threaded through.
\<close>

definition doc_of_index_hit :: "source \<Rightarrow> source" where
  "doc_of_index_hit h =
     \<lparr>s_url = Some (case s_metadata h of None \<Rightarrow> [] | Some m \<Rightarrow> get_or_empty (m_url m)),
      s_title = Some (case s_metadata h of None \<Rightarrow> [] | Some m \<Rightarrow> get_or_empty (m_title m)),
      s_text = Some (get_or_empty (s_text h)), s_metadata = None\<rparr>"

definition curator_select ::
  "(lang_doc list \<Rightarrow> string \<Rightarrow> nat \<Rightarrow> lang_doc list) \<Rightarrow> nat \<Rightarrow> registry \<Rightarrow> string \<Rightarrow> source list
     \<Rightarrow> source list \<times> registry" where
  "curator_select similar now_ms reg q docs =
     (case build_index now_ms docs reg of
        (IndexFail msg, reg') \<Rightarrow> (take 6 docs, reg')
      | (IndexOk key n, reg') \<Rightarrow>
          if key \<noteq> [] then
            (let hits = search_index similar reg' key q 6
             in if hits \<noteq> [] then (map doc_of_index_hit hits, reg') else (take 6 docs, reg'))
          else (take 6 docs, reg'))"

definition curator_node ::
  "(lang_doc list \<Rightarrow> string \<Rightarrow> nat \<Rightarrow> lang_doc list) \<Rightarrow> (source list \<Rightarrow> string \<Rightarrow> string) \<Rightarrow> nat
     \<Rightarrow> real \<Rightarrow> real \<Rightarrow> registry \<Rightarrow> research_state \<Rightarrow> research_state \<times> registry" where
  "curator_node similar summarize now_ms t0 t1 reg state =
     (let trace1 = trace_of state @ [start_event ''curator'' t0];
          q = get_or_empty (st_query state);
          docs = docs_of state
      in case curator_select similar now_ms reg q docs of
           (selected, reg') \<Rightarrow>
             (state\<lparr>st_docs := Some selected, st_summary := Some (summarize selected q),
                    st_trace := Some (trace1 @
                      [\<lparr>ev_node = ''curator:done'', ev_t = t1, ev_docs = Some (length selected),
                        ev_claims = None\<rparr>])\<rparr>,
              reg'))"

subsection \<open>Fact checker\<close>

text \<open>
  \<open>extract_claims\<close> stands for \<open>extract_claims_tool\<close> (a language-model call),
  \<open>min_overlap\<close> for \<open>int(os.getenv('MIN_EVIDENCE_OVERLAP', ...))\<close>.
\<close>

definition fact_checker_node ::
  "(string \<Rightarrow> string \<Rightarrow> nat \<Rightarrow> string list) \<Rightarrow> int \<Rightarrow> real \<Rightarrow> real
     \<Rightarrow> research_state \<Rightarrow> research_state" where
  "fact_checker_node extract_claims min_overlap t0 t1 state =
     (let trace1 = trace_of state @ [start_event ''fact_checker'' t0];
          q = get_or_empty (st_query state);
          docs = docs_of state;
          sm = get_or_empty (st_summary state);
          claims = extract_claims sm q 6;
          checked = verify_claims_tool claims docs min_overlap
      in state\<lparr>st_claims := Some claims, st_checked_claims := Some checked,
               st_trace := Some (trace1 @
                 [\<lparr>ev_node = ''fact_checker:done'', ev_t = t1, ev_docs = None,
                   ev_claims = Some (length checked)\<rparr>])\<rparr>)"

section \<open>KPI aggregation (\<open>kpi_web_fallback\<close>, the writer stage)\<close>

definition four_kpis :: "string list" where
  "four_kpis = [''p_e_ratio'', ''p_s_ratio'', ''gross_margin'', ''operating_margin'']"

text \<open>\<open>all(x in results for x in [...])\<close>\<close>

definition has_all :: "kpi \<Rightarrow> bool" where
  "has_all k = list_all (\<lambda>x. k x \<noteq> None) four_kpis"

text \<open>
  \<open>if vv is not None and kk not in results: results[kk] = vv\<close> over the items of
  \<open>k\<close>, and \<open>results.setdefault(kk, vv)\<close> likewise: only missing keys are set.
\<close>

definition fill :: "kpi \<Rightarrow> kpi \<Rightarrow> kpi" where
  "fill results k = (\<lambda>kk. case results kk of Some v \<Rightarrow> Some v | None \<Rightarrow> k kk)"

text \<open>
  The loop of \<open>kpi_web_fallback\<close> over \<open>hits_all\<close>; \<open>extract\<close> stands for
  \<open>extract_kpis_from_page\<close> (regular expressions over the page text).
\<close>

fun fallback_loop ::
  "(string \<Rightarrow> kpi) \<Rightarrow> (string \<Rightarrow> int \<Rightarrow> fetched) \<Rightarrow> hit list \<Rightarrow> kpi \<Rightarrow> kpi" where
  "fallback_loop extract fetch [] results = results"
| "fallback_loop extract fetch (h # hs) results =
     (let url = h_link h;
          page_text = (if url \<noteq> [] then f_text (fetch url 15) else h_snippet h);
          text = (if page_text \<noteq> [] then page_text else h_snippet h)
      in if text = [] then fallback_loop extract fetch hs results
         else let results' = fill results (extract text)
              in if has_all results' then results'
                 else fallback_loop extract fetch hs results')"

text \<open>\<open>yfinance\<close> stands for \<open>_kpi_from_yfinance\<close>.\<close>

definition kpi_web_fallback ::
  "(string \<Rightarrow> int \<Rightarrow> hit list) \<Rightarrow> (string \<Rightarrow> int \<Rightarrow> fetched) \<Rightarrow> (string \<Rightarrow> kpi) \<Rightarrow> (string \<Rightarrow> kpi)
     \<Rightarrow> string \<Rightarrow> kpi" where
  "kpi_web_fallback search fetch extract yfinance ticker_or_query =
     (let queries =
            [ticker_or_query @ '' P/E ratio'', ticker_or_query @ '' price to sales ratio'',
             ticker_or_query @ '' gross margin percentage'',
             ticker_or_query @ '' operating margin percentage'',
             ticker_or_query @ '' KPIs financial ratios''];
          hits_all = concat (map (\<lambda>q. search q 6) queries);
          results = fallback_loop extract fetch hits_all Map.empty
      in fill results (yfinance ticker_or_query))"

text \<open>\<open>sep.join(xs)\<close>\<close>

fun join :: "string \<Rightarrow> string list \<Rightarrow> string" where
  "join sep [] = []"
| "join sep [x] = x"
| "join sep (x # y # ys) = x @ sep @ join sep (y # ys)"

text \<open>\<open>"\n\n".join([d.get("text","")[:6000] for d in docs])[:24000]\<close>\<close>

definition writer_agg :: "source list \<Rightarrow> string" where
  "writer_agg docs =
     take 24000 (join [CHR 0x0A, CHR 0x0A] (map (\<lambda>d. take 6000 (get_or_empty (s_text d))) docs))"

text \<open>
  The KPI dictionary the writer stage hands to the projection and to the report:
  the extraction on the concatenated text, then \<open>kpi.update(fb)\<close> when a KPI is missing.
  \<open>fallback\<close> is the \<open>kpi_web_fallback\<close> tool as the stage sees it.
\<close>

definition writer_kpi :: "(string \<Rightarrow> kpi) \<Rightarrow> (string \<Rightarrow> kpi) \<Rightarrow> research_state \<Rightarrow> kpi" where
  "writer_kpi extract fallback state =
     (let q = get_or_empty (st_query state);
          kpi = extract (writer_agg (docs_of state))
      in if \<not> has_all kpi
         then kpi ++ fallback (first_truthy [st_ticker state, Some q])
         else kpi)"

text \<open>
  The writer stage on the run state: it stores the path of the report it wrote
  (\<open>out\<close>); the charts, the sources file and the report are files, not state.
\<close>

definition writer_node :: "string \<Rightarrow> research_state \<Rightarrow> research_state" where
  "writer_node out state = state\<lparr>st_report_html := Some out\<rparr>"

section \<open>Specification-level notions\<close>

text \<open>The largest overlap of a token list over the sources (0 when there is none).\<close>

fun max_overlap :: "string list \<Rightarrow> source list \<Rightarrow> nat" where
  "max_overlap toks [] = 0"
| "max_overlap toks (s # ss) = max (overlap toks s) (max_overlap toks ss)"

text \<open>The best-matching source: the first one that reaches the largest overlap.\<close>

definition best_source :: "string list \<Rightarrow> source list \<Rightarrow> source option" where
  "best_source toks ss = find (\<lambda>s. overlap toks s = max_overlap toks ss) ss"

text \<open>The hits the de-duplication keeps, given the keys already seen.\<close>

fun kept :: "string set \<Rightarrow> hit list \<Rightarrow> hit list" where
  "kept seen [] = []"
| "kept seen (x # xs) =
     (if hit_key x \<noteq> [] \<and> hit_key x \<notin> seen then x # kept (insert (hit_key x) seen) xs
      else kept seen xs)"

text \<open>\<open>state["checked_claims"]\<close>, empty when the key is missing.\<close>

definition checked_of :: "research_state \<Rightarrow> verified_claim list" where
  "checked_of st = (case st_checked_claims st of None \<Rightarrow> [] | Some cs \<Rightarrow> cs)"

definition is_fin :: "pyfloat \<Rightarrow> bool" where
  "is_fin x = (case x of Fin r \<Rightarrow> True | _ \<Rightarrow> False)"

section \<open>Auxiliary lemmas\<close>

lemma is_substr_sublist: "is_substr t hay \<longleftrightarrow> sublist t hay"
  by (induction hay) (auto simp: sublist_Cons_right)

lemma scan_verdict:
  "fst (scan_sources toks m ss (v, u, om)) \<longleftrightarrow> v \<or> (\<exists>s\<in>set ss. m \<le> int (overlap toks s))"
  by (induction ss arbitrary: v u om) (auto simp: Let_def)

lemma scan_max:
  "snd (snd (scan_sources toks m ss (v, u, om))) = max om (max_overlap toks ss)"
  by (induction ss arbitrary: v u om) (auto simp: Let_def)

lemma scan_url:
  "fst (snd (scan_sources toks m ss (v, u, om))) =
     (if max_overlap toks ss > om
      then (case best_source toks ss of None \<Rightarrow> None | Some s \<Rightarrow> source_url s) else u)"
proof (induction ss arbitrary: v u om)
  case Nil
  then show ?case by simp
next
  case (Cons s ss)
  show ?case
  proof (cases "overlap toks s > om")
    case True
    then show ?thesis
      using Cons.IH[of "if m \<le> int (overlap toks s) then True else v" "source_url s" "overlap toks s"]
      by (auto simp: Let_def best_source_def max_def)
  next
    case False
    then show ?thesis
      using Cons.IH[of "if m \<le> int (overlap toks s) then True else v" u om]
      by (auto simp: Let_def best_source_def max_def)
  qed
qed

lemma overlap_counts_substrings:
  "overlap toks s = length (filter (\<lambda>t. sublist t (source_text s)) toks)"
  by (simp add: overlap_def is_substr_sublist)

lemma max_overlap_ge: "s \<in> set ss \<Longrightarrow> overlap toks s \<le> max_overlap toks ss"
  by (induction ss) auto

lemma max_overlap_attained: "ss \<noteq> [] \<Longrightarrow> \<exists>s\<in>set ss. overlap toks s = max_overlap toks ss"
proof (induction ss)
  case Nil
  then show ?case by simp
next
  case (Cons a ss)
  show ?case
  proof (cases "ss = []")
    case True
    then show ?thesis by simp
  next
    case False
    with Cons.IH obtain s where "s \<in> set ss" "overlap toks s = max_overlap toks ss" by blast
    then show ?thesis by (cases "overlap toks a \<le> max_overlap toks ss") (auto simp: max_def)
  qed
qed

lemma ex_ge_iff_max:
  "(\<exists>s\<in>set ss. m \<le> int (overlap toks s)) \<longleftrightarrow> ss \<noteq> [] \<and> m \<le> int (max_overlap toks ss)"
proof
  assume "\<exists>s\<in>set ss. m \<le> int (overlap toks s)"
  then obtain s where s: "s \<in> set ss" "m \<le> int (overlap toks s)" by blast
  from max_overlap_ge[OF s(1), of toks] s show "ss \<noteq> [] \<and> m \<le> int (max_overlap toks ss)"
    by auto
next
  assume a: "ss \<noteq> [] \<and> m \<le> int (max_overlap toks ss)"
  then obtain s where "s \<in> set ss" "overlap toks s = max_overlap toks ss"
    using max_overlap_attained[of ss toks] by blast
  with a show "\<exists>s\<in>set ss. m \<le> int (overlap toks s)"
    by (intro bexI[of _ s]) auto
qed

lemma max_overlap_zero_iff: "max_overlap toks ss = 0 \<longleftrightarrow> (\<forall>s\<in>set ss. overlap toks s = 0)"
  by (induction ss) (auto simp: max_def)

lemma dedupe_loop_kept: "snd (dedupe_loop xs (seen, final)) = final @ kept seen xs"
  by (induction xs arbitrary: seen final) (auto simp: Let_def)

lemma kept_subseq: "subseq (kept seen xs) xs"
  by (induction xs arbitrary: seen) auto

lemma kept_keys: "x \<in> set (kept seen xs) \<Longrightarrow> hit_key x \<noteq> [] \<and> hit_key x \<notin> seen"
  by (induction xs arbitrary: seen) (auto split: if_splits)

lemma kept_distinct: "distinct (map hit_key (kept seen xs))"
  by (induction xs arbitrary: seen) (auto dest: kept_keys)

lemma kept_first:
  "x \<in> set (kept seen xs) \<Longrightarrow> find (\<lambda>y. hit_key y = hit_key x) xs = Some x"
proof (induction xs arbitrary: seen)
  case Nil
  then show ?case by simp
next
  case (Cons a xs)
  show ?case
  proof (cases "hit_key a \<noteq> [] \<and> hit_key a \<notin> seen")
    case True
    with Cons.prems have "x = a \<or> x \<in> set (kept (insert (hit_key a) seen) xs)" by simp
    then show ?thesis
    proof
      assume "x = a" then show ?thesis by simp
    next
      assume in_rest: "x \<in> set (kept (insert (hit_key a) seen) xs)"
      from kept_keys[OF in_rest] have "hit_key a \<noteq> hit_key x" by auto
      with Cons.IH[OF in_rest] show ?thesis by simp
    qed
  next
    case False
    with Cons.prems have in_rest: "x \<in> set (kept seen xs)" by auto
    from kept_keys[OF in_rest] False have "hit_key a \<noteq> hit_key x" by auto
    with Cons.IH[OF in_rest] show ?thesis by simp
  qed
qed

lemma py_take_prefix: "prefix (py_take n xs) xs"
  by (simp add: py_take_def take_is_prefix)

lemma py_take_subseq: "subseq (py_take n xs) xs"
  using py_take_prefix by (rule prefix_imp_subseq)

lemma py_take_set: "set (py_take n xs) \<subseteq> set xs"
  by (auto simp: py_take_def dest: in_set_takeD)

lemma py_take_distinct: "distinct (map f xs) \<Longrightarrow> distinct (map f (py_take n xs))"
  by (simp add: py_take_def take_map[symmetric] del: take_map)

lemma py_take_length: "0 \<le> n \<Longrightarrow> int (length (py_take n xs)) \<le> n"
  by (simp add: py_take_def)

lemma collect_lang_docs_length:
  "length (collect_lang_docs ds) = length (filter (\<lambda>d. \<not> blank (truncated_text d)) ds)"
  by (induction ds) (auto simp: Let_def)

lemma collect_lang_docs_empty:
  "collect_lang_docs ds = [] \<longleftrightarrow> (\<forall>d\<in>set ds. blank (truncated_text d))"
  by (induction ds) (auto simp: Let_def)

lemma is_fin_Fin: "is_fin (Fin r)"
  by (simp add: is_fin_def)

lemma is_fin_fadd: "is_fin a \<Longrightarrow> is_fin b \<Longrightarrow> is_fin (fadd a b)"
  by (cases a; cases b) (auto simp: is_fin_def)

lemma is_fin_fsub: "is_fin a \<Longrightarrow> is_fin b \<Longrightarrow> is_fin (fsub a b)"
  by (cases a; cases b) (auto simp: is_fin_def fsub_def)

lemma is_fin_gm_adjust: "g \<noteq> NaN \<Longrightarrow> is_fin (gm_adjust g)"
  by (cases g) (auto simp: is_fin_def gm_adjust_def py_min_def py_max_def fgt_def fsub_def)

lemma is_fin_om_adjust: "g \<noteq> NaN \<Longrightarrow> is_fin (om_adjust g)"
  by (cases g) (auto simp: is_fin_def om_adjust_def py_min_def py_max_def fgt_def fsub_def)

lemma is_fin_np_clip:
  "x \<noteq> NaN \<Longrightarrow> c \<noteq> 0 \<Longrightarrow> is_fin (np_clip (fscale x c) (Fin lo) (Fin hi))"
  by (cases x) (auto simp: is_fin_def np_clip_def np_minimum_def np_maximum_def)

lemma floor_holds:
  assumes "is_fin x"
  shows "\<exists>r. py_max x (Fin 0.01) = Fin r \<and> 0.01 \<le> r"
proof -
  from assms obtain a where x: "x = Fin a" by (cases x) (auto simp: is_fin_def)
  show ?thesis
  proof (cases "a < 0.01")
    case True
    then have "py_max x (Fin 0.01) = Fin 0.01" by (simp add: x py_max_def fgt_def)
    then show ?thesis by blast
  next
    case False
    then have "py_max x (Fin 0.01) = Fin a" by (simp add: x py_max_def fgt_def)
    with False show ?thesis by auto
  qed
qed

lemma estimate_growth_floor:
  assumes "kpi ''gross_margin'' \<noteq> Some NaN" "kpi ''operating_margin'' \<noteq> Some NaN"
    "cagr \<noteq> Some NaN" "momentum \<noteq> Some NaN"
  shows "\<exists>r. estimate_growth kpi momentum cagr = Fin r \<and> 0.01 \<le> r"
proof -
  define adj1 where "adj1 = (case kpi ''gross_margin'' of
      Some g \<Rightarrow> if truthy (kpi ''gross_margin'') then fadd (Fin 0) (gm_adjust g) else Fin 0
    | None \<Rightarrow> Fin 0)"
  define adj2 where "adj2 = (case kpi ''operating_margin'' of
      Some m \<Rightarrow> if truthy (kpi ''operating_margin'') then fadd adj1 (om_adjust m) else adj1
    | None \<Rightarrow> adj1)"
  define adj3 where "adj3 = (case kpi ''p_e_ratio'' of
      Some p \<Rightarrow> if truthy (kpi ''p_e_ratio'') \<and> fgt p (Fin 0)
                then (if flt p (Fin 20) then fadd adj2 (Fin 0.02)
                      else if fgt p (Fin 50) then fsub adj2 (Fin 0.03) else adj2)
                else adj2
    | None \<Rightarrow> adj2)"
  define adj4 where "adj4 = (case cagr of
      Some c \<Rightarrow> fadd adj3 (np_clip (fscale c 0.5) (Fin (- 0.05)) (Fin 0.10))
    | None \<Rightarrow> adj3)"
  define adj5 where "adj5 = (case momentum of
      Some m \<Rightarrow> fadd adj4 (np_clip (fscale m 0.3) (Fin (- 0.05)) (Fin 0.06))
    | None \<Rightarrow> adj4)"
  have f1: "is_fin adj1"
    using assms(1) by (auto simp: adj1_def is_fin_Fin is_fin_fadd is_fin_gm_adjust split: option.splits)
  have f2: "is_fin adj2"
    using assms(2) f1 by (auto simp: adj2_def is_fin_fadd is_fin_om_adjust split: option.splits)
  have f3: "is_fin adj3"
    using f2 by (auto simp: adj3_def is_fin_Fin is_fin_fadd is_fin_fsub split: option.splits)
  have f4: "is_fin adj4"
  proof (cases cagr)
    case None
    then show ?thesis by (simp add: adj4_def f3)
  next
    case (Some c)
    with assms(3) have "c \<noteq> NaN" by simp
    then have "is_fin (np_clip (fscale c 0.5) (Fin (- 0.05)) (Fin 0.10))"
      by (rule is_fin_np_clip) simp
    with f3 show ?thesis by (simp add: adj4_def Some is_fin_fadd)
  qed
  have f5: "is_fin adj5"
  proof (cases momentum)
    case None
    then show ?thesis by (simp add: adj5_def f4)
  next
    case (Some m)
    with assms(4) have "m \<noteq> NaN" by simp
    then have "is_fin (np_clip (fscale m 0.3) (Fin (- 0.05)) (Fin 0.06))"
      by (rule is_fin_np_clip) simp
    with f4 show ?thesis by (simp add: adj5_def Some is_fin_fadd)
  qed
  have eg: "estimate_growth kpi momentum cagr = py_max (fadd (Fin 0.08) adj5) (Fin 0.01)"
    unfolding estimate_growth_def Let_def adj5_def adj4_def adj3_def adj2_def adj1_def
    by (rule refl)
  show ?thesis
    unfolding eg by (rule floor_holds) (simp add: is_fin_fadd is_fin_Fin f5)
qed

lemma verify_claim_fields:
  "vc_claim (verify_claim ss m c) = c"
  "vc_verdict (verify_claim ss m c) \<longleftrightarrow> (\<exists>s\<in>set ss. m \<le> int (overlap (claim_tokens c) s))"
  "vc_note (verify_claim ss m c) = ''overlap='' @ str_nat (max_overlap (claim_tokens c) ss)"
  "vc_evidence_url (verify_claim ss m c) =
     (if 0 < max_overlap (claim_tokens c) ss
      then (case best_source (claim_tokens c) ss of None \<Rightarrow> None | Some s \<Rightarrow> source_url s)
      else None)"
proof -
  obtain v u om where sc: "scan_sources (claim_tokens c) m ss (False, None, 0) = (v, u, om)"
    by (cases "scan_sources (claim_tokens c) m ss (False, None, 0)") auto
  have v: "v \<longleftrightarrow> (\<exists>s\<in>set ss. m \<le> int (overlap (claim_tokens c) s))"
    using scan_verdict[of "claim_tokens c" m ss False None 0] by (simp add: sc)
  have om: "om = max_overlap (claim_tokens c) ss"
    using scan_max[of "claim_tokens c" m ss False None 0] by (simp add: sc)
  have u: "u = (if 0 < max_overlap (claim_tokens c) ss
      then (case best_source (claim_tokens c) ss of None \<Rightarrow> None | Some s \<Rightarrow> source_url s)
      else None)"
    using scan_url[of "claim_tokens c" m ss False None 0] by (simp add: sc)
  show "vc_claim (verify_claim ss m c) = c" by (simp add: verify_claim_def sc)
  show "vc_verdict (verify_claim ss m c) \<longleftrightarrow> (\<exists>s\<in>set ss. m \<le> int (overlap (claim_tokens c) s))"
    using v by (simp add: verify_claim_def sc)
  show "vc_note (verify_claim ss m c) = ''overlap='' @ str_nat (max_overlap (claim_tokens c) ss)"
    using om by (simp add: verify_claim_def sc)
  show "vc_evidence_url (verify_claim ss m c) =
     (if 0 < max_overlap (claim_tokens c) ss
      then (case best_source (claim_tokens c) ss of None \<Rightarrow> None | Some s \<Rightarrow> source_url s)
      else None)"
    using u by (simp add: verify_claim_def sc)
qed

section \<open>Claim verification: the claims\<close>

text \<open>
  Claim C1, as amended. \<open>verify_claims_tool\<close> returns one entry per claim, in order, each
  carrying its claim. A claim's overlap against a source counts the claim's tokens (the
  runs of letters, digits and hyphens of the lowercased claim that are longer than 3)
  that are substrings of the lowercased source text. The verdict is true iff some source
  has an overlap of at least \<open>min_overlap\<close>; equivalently, iff there is at least one
  source and the largest overlap reaches \<open>min_overlap\<close>.
\<close>

theorem C1_verify_per_claim:
  "length (verify_claims_tool claims sources m) = length claims \<and>
   (\<forall>i<length claims.
      vc_claim (verify_claims_tool claims sources m ! i) = claims ! i \<and>
      (vc_verdict (verify_claims_tool claims sources m ! i) \<longleftrightarrow>
         (\<exists>s\<in>set sources.
            m \<le> int (length (filter (\<lambda>t. sublist t (source_text s))
                               (claim_tokens (claims ! i)))))) \<and>
      (vc_verdict (verify_claims_tool claims sources m ! i) \<longleftrightarrow>
         sources \<noteq> [] \<and> m \<le> int (max_overlap (claim_tokens (claims ! i)) sources)))"
proof (intro conjI allI impI)
  show "length (verify_claims_tool claims sources m) = length claims"
    by (simp add: verify_claims_tool_def)
next
  fix i assume i: "i < length claims"
  then have nth: "verify_claims_tool claims sources m ! i = verify_claim sources m (claims ! i)"
    by (simp add: verify_claims_tool_def)
  show "vc_claim (verify_claims_tool claims sources m ! i) = claims ! i"
    by (simp add: nth verify_claim_fields(1))
  show "vc_verdict (verify_claims_tool claims sources m ! i) \<longleftrightarrow>
         (\<exists>s\<in>set sources.
            m \<le> int (length (filter (\<lambda>t. sublist t (source_text s))
                               (claim_tokens (claims ! i)))))"
    unfolding nth verify_claim_fields(2) overlap_counts_substrings by (rule refl)
  show "vc_verdict (verify_claims_tool claims sources m ! i) \<longleftrightarrow>
         sources \<noteq> [] \<and> m \<le> int (max_overlap (claim_tokens (claims ! i)) sources)"
    unfolding nth verify_claim_fields(2) by (rule ex_ge_iff_max)
qed

text \<open>The amended C1 at a claim with three matching tokens and threshold 2.\<close>

theorem C1_witness:
  "length (verify_claims_tool [''Revenue grew in 2024'']
      [\<lparr>s_url = Some ''http://a'', s_title = None, s_text = Some ''revenue GREW 2024'',
        s_metadata = None\<rparr>] 2) = 1 \<and>
   vc_verdict (verify_claims_tool [''Revenue grew in 2024'']
      [\<lparr>s_url = Some ''http://a'', s_title = None, s_text = Some ''revenue GREW 2024'',
        s_metadata = None\<rparr>] 2 ! 0)"
proof -
  let ?cs = "[''Revenue grew in 2024'']"
  let ?ss = "[\<lparr>s_url = Some ''http://a'', s_title = None, s_text = Some ''revenue GREW 2024'',
        s_metadata = None\<rparr>]"
  have ov: "overlap (claim_tokens ''Revenue grew in 2024'')
      \<lparr>s_url = Some ''http://a'', s_title = None, s_text = Some ''revenue GREW 2024'',
        s_metadata = None\<rparr> = 3"
    by code_simp
  have i: "0 < length ?cs" by simp
  note t = C1_verify_per_claim[of ?cs ?ss 2]
  note v = t[THEN conjunct2, rule_format, OF i, THEN conjunct2, THEN conjunct2]
  have "vc_verdict (verify_claims_tool ?cs ?ss 2 ! 0)"
    unfolding v by (simp add: ov)
  moreover have "length (verify_claims_tool ?cs ?ss 2) = 1"
    using t[THEN conjunct1] by simp
  ultimately show ?thesis by simp
qed

text \<open>
  C1 as stated fails without sources: the largest overlap is 0, which meets the
  threshold 0, yet the verdict is false.
\<close>

theorem C1_counterexample:
  "\<not> (vc_verdict (verify_claims_tool [''Revenue grew in 2024''] [] 0 ! 0) \<longleftrightarrow>
        0 \<le> int (max_overlap (claim_tokens ''Revenue grew in 2024'') []))"
  by (simp add: verify_claims_tool_def verify_claim_def)

text \<open>
  Claim C3, as amended. Each entry carries the largest overlap in its \<open>note\<close>, the
  string \<open>overlap=\<close> followed by the number in decimal (there is no integer field).
  Its \<open>evidence_url\<close> is the URL of the first source that reaches the largest overlap
  when that overlap is positive, and \<open>None\<close> when it is 0. Neither depends on
  \<open>min_overlap\<close>.
\<close>

theorem C3_evidence_and_note:
  "\<forall>i<length claims.
      vc_note (verify_claims_tool claims sources m ! i) =
        ''overlap='' @ str_nat (max_overlap (claim_tokens (claims ! i)) sources) \<and>
      vc_evidence_url (verify_claims_tool claims sources m ! i) =
        (if 0 < max_overlap (claim_tokens (claims ! i)) sources
         then (case best_source (claim_tokens (claims ! i)) sources of
                 None \<Rightarrow> None | Some s \<Rightarrow> source_url s)
         else None) \<and>
      vc_note (verify_claims_tool claims sources m ! i) =
        vc_note (verify_claims_tool claims sources m' ! i) \<and>
      vc_evidence_url (verify_claims_tool claims sources m ! i) =
        vc_evidence_url (verify_claims_tool claims sources m' ! i)"
proof (intro allI impI)
  fix i assume "i < length claims"
  then have nth: "verify_claims_tool claims sources k ! i = verify_claim sources k (claims ! i)"
    for k by (simp add: verify_claims_tool_def)
  show "vc_note (verify_claims_tool claims sources m ! i) =
        ''overlap='' @ str_nat (max_overlap (claim_tokens (claims ! i)) sources) \<and>
      vc_evidence_url (verify_claims_tool claims sources m ! i) =
        (if 0 < max_overlap (claim_tokens (claims ! i)) sources
         then (case best_source (claim_tokens (claims ! i)) sources of
                 None \<Rightarrow> None | Some s \<Rightarrow> source_url s)
         else None) \<and>
      vc_note (verify_claims_tool claims sources m ! i) =
        vc_note (verify_claims_tool claims sources m' ! i) \<and>
      vc_evidence_url (verify_claims_tool claims sources m ! i) =
        vc_evidence_url (verify_claims_tool claims sources m' ! i)"
    unfolding nth verify_claim_fields by simp
qed

text \<open>
  The amended C3 with three sources, two of them tied at the largest overlap 2, and a
  threshold that no source meets: the first of the two gives the URL.
\<close>

theorem C3_witness:
  "vc_note (verify_claims_tool [''Revenue grew in 2024'']
      [\<lparr>s_url = Some ''http://a'', s_title = None, s_text = Some ''nothing'', s_metadata = None\<rparr>,
       \<lparr>s_url = Some ''http://b'', s_title = None, s_text = Some ''Revenue GREW'', s_metadata = None\<rparr>,
       \<lparr>s_url = Some ''http://c'', s_title = None, s_text = Some ''grew revenue'', s_metadata = None\<rparr>]
      5 ! 0) = ''overlap=2'' \<and>
   vc_evidence_url (verify_claims_tool [''Revenue grew in 2024'']
      [\<lparr>s_url = Some ''http://a'', s_title = None, s_text = Some ''nothing'', s_metadata = None\<rparr>,
       \<lparr>s_url = Some ''http://b'', s_title = None, s_text = Some ''Revenue GREW'', s_metadata = None\<rparr>,
       \<lparr>s_url = Some ''http://c'', s_title = None, s_text = Some ''grew revenue'', s_metadata = None\<rparr>]
      5 ! 0) = Some ''http://b''"
proof -
  let ?ss = "[\<lparr>s_url = Some ''http://a'', s_title = None, s_text = Some ''nothing'', s_metadata = None\<rparr>,
       \<lparr>s_url = Some ''http://b'', s_title = None, s_text = Some ''Revenue GREW'', s_metadata = None\<rparr>,
       \<lparr>s_url = Some ''http://c'', s_title = None, s_text = Some ''grew revenue'', s_metadata = None\<rparr>]"
  have mx: "max_overlap (claim_tokens ''Revenue grew in 2024'') ?ss = 2"
    by code_simp
  have bs: "(case best_source (claim_tokens ''Revenue grew in 2024'') ?ss of
               None \<Rightarrow> None | Some s \<Rightarrow> source_url s) = Some ''http://b''"
    by code_simp
  have n: "str_nat 2 = ''2''" by code_simp
  have i: "0 < length [''Revenue grew in 2024'']" by simp
  note t = C3_evidence_and_note[of "[''Revenue grew in 2024'']" ?ss 5 5, rule_format, OF i]
  have c0: "[''Revenue grew in 2024''] ! 0 = ''Revenue grew in 2024''" by simp
  show ?thesis
    using t[THEN conjunct1] t[THEN conjunct2, THEN conjunct1] unfolding c0 mx bs n by simp
qed

text \<open>
  C3 as stated fails when the best-matching source has overlap 0: the entry has no
  evidence URL although that source has one (and the verdict is true at threshold 0).
\<close>

theorem C3_counterexample:
  "vc_evidence_url (verify_claims_tool [''Revenue grew in 2024'']
      [\<lparr>s_url = Some ''http://a'', s_title = None, s_text = Some ''nothing here'',
        s_metadata = None\<rparr>] 0 ! 0) = None \<and>
   best_source (claim_tokens ''Revenue grew in 2024'')
      [\<lparr>s_url = Some ''http://a'', s_title = None, s_text = Some ''nothing here'',
        s_metadata = None\<rparr>] =
     Some \<lparr>s_url = Some ''http://a'', s_title = None, s_text = Some ''nothing here'',
        s_metadata = None\<rparr> \<and>
   source_url \<lparr>s_url = Some ''http://a'', s_title = None, s_text = Some ''nothing here'',
        s_metadata = None\<rparr> = Some ''http://a'' \<and>
   vc_verdict (verify_claims_tool [''Revenue grew in 2024'']
      [\<lparr>s_url = Some ''http://a'', s_title = None, s_text = Some ''nothing here'',
        s_metadata = None\<rparr>] 0 ! 0)"
  by code_simp

text \<open>
  Claim C4. For fixed claims and sources and thresholds \<open>m1 \<le> m2\<close>, a claim whose
  verdict is true under \<open>m2\<close> has a true verdict under \<open>m1\<close>.
\<close>

theorem C4_monotone_in_threshold:
  assumes "m1 \<le> m2" and "i < length claims"
    and "vc_verdict (verify_claims_tool claims sources m2 ! i)"
  shows "vc_verdict (verify_claims_tool claims sources m1 ! i)"
proof -
  from assms(2,3) obtain s where
    s: "s \<in> set sources" "m2 \<le> int (overlap (claim_tokens (claims ! i)) s)"
    by (auto simp: verify_claims_tool_def verify_claim_fields)
  with assms(1) have "m1 \<le> int (overlap (claim_tokens (claims ! i)) s)" by simp
  with s(1) assms(2) show ?thesis
    by (auto simp: verify_claims_tool_def verify_claim_fields)
qed

text \<open>C4 at thresholds 1 and 3 for a claim with overlap 3.\<close>

theorem C4_witness:
  "(1::int) \<le> 3 \<and>
   vc_verdict (verify_claims_tool [''Revenue grew in 2024'']
      [\<lparr>s_url = Some ''http://a'', s_title = None, s_text = Some ''revenue GREW 2024'',
        s_metadata = None\<rparr>] 3 ! 0) \<and>
   vc_verdict (verify_claims_tool [''Revenue grew in 2024'']
      [\<lparr>s_url = Some ''http://a'', s_title = None, s_text = Some ''revenue GREW 2024'',
        s_metadata = None\<rparr>] 1 ! 0)"
proof -
  let ?cs = "[''Revenue grew in 2024'']"
  let ?ss = "[\<lparr>s_url = Some ''http://a'', s_title = None, s_text = Some ''revenue GREW 2024'',
        s_metadata = None\<rparr>]"
  have le: "(1::int) \<le> 3" by simp
  have i: "0 < length ?cs" by simp
  have hi: "vc_verdict (verify_claims_tool ?cs ?ss 3 ! 0)" by code_simp
  from C4_monotone_in_threshold[OF le i hi] hi le show ?thesis by simp
qed

text \<open>
  Claim C10. With no sources every entry has verdict false, no evidence URL and the note
  \<open>overlap=0\<close>, whatever \<open>min_overlap\<close> is; and an entry has no evidence URL whenever
  no source has a positive overlap with its claim.
\<close>

theorem C10_no_source_no_evidence:
  "verify_claims_tool claims [] m =
     map (\<lambda>c. \<lparr>vc_claim = c, vc_verdict = False, vc_evidence_url = None,
               vc_note = ''overlap=0''\<rparr>) claims \<and>
   (\<forall>i<length claims.
      (\<forall>s\<in>set sources. overlap (claim_tokens (claims ! i)) s = 0) \<longrightarrow>
      vc_evidence_url (verify_claims_tool claims sources m ! i) = None)"
proof -
  have z: "str_nat 0 = ''0''" by code_simp
  have "verify_claim [] m c = \<lparr>vc_claim = c, vc_verdict = False, vc_evidence_url = None,
               vc_note = ''overlap=0''\<rparr>" for c
    by (simp add: verify_claim_def z)
  moreover have "vc_evidence_url (verify_claims_tool claims sources m ! i) = None"
    if "i < length claims" "\<forall>s\<in>set sources. overlap (claim_tokens (claims ! i)) s = 0" for i
    using that max_overlap_zero_iff[of "claim_tokens (claims ! i)" sources]
    by (simp add: verify_claims_tool_def verify_claim_fields)
  ultimately show ?thesis by (simp add: verify_claims_tool_def)
qed

text \<open>C10 at the threshold -1, without sources and with one source that matches nothing.\<close>

theorem C10_witness:
  "verify_claims_tool [''Revenue grew in 2024''] [] (- 1) =
     [\<lparr>vc_claim = ''Revenue grew in 2024'', vc_verdict = False, vc_evidence_url = None,
       vc_note = ''overlap=0''\<rparr>] \<and>
   vc_evidence_url (verify_claims_tool [''Revenue grew in 2024'']
      [\<lparr>s_url = Some ''http://a'', s_title = None, s_text = Some ''nothing here'',
        s_metadata = None\<rparr>] (- 1) ! 0) = None"
proof -
  let ?s = "\<lparr>s_url = Some ''http://a'', s_title = None, s_text = Some ''nothing here'',
        s_metadata = None\<rparr>"
  have ov: "overlap (claim_tokens ''Revenue grew in 2024'') ?s = 0" by code_simp
  show ?thesis
    using C10_no_source_no_evidence[of "[''Revenue grew in 2024'']" "- 1" "[?s]"]
    by (simp add: ov)
qed

section \<open>Evidence index: the claim\<close>

text \<open>
  Claim C5. \<open>build_index\<close> fails (with one of its two messages) iff every document's
  text is blank after the truncation to 3000 characters; otherwise it succeeds and the
  size it reports is the number of documents whose truncated text is not blank.
\<close>

theorem C5_build_index_empty_iff:
  "((\<exists>msg. fst (build_index now_ms D reg) = IndexFail msg) \<longleftrightarrow>
      (\<forall>d\<in>set D. blank (truncated_text d))) \<and>
   (\<not> (\<forall>d\<in>set D. blank (truncated_text d)) \<longrightarrow>
      fst (build_index now_ms D reg) =
        IndexOk (''idx_'' @ str_nat now_ms)
          (length (filter (\<lambda>d. \<not> blank (truncated_text d)) D)))"
proof (cases "collect_lang_docs D = []")
  case True
  then have allb: "\<forall>d\<in>set D. blank (truncated_text d)" by (simp add: collect_lang_docs_empty)
  from True have "\<exists>msg. fst (build_index now_ms D reg) = IndexFail msg"
    by (simp add: build_index_def)
  with allb show ?thesis by simp
next
  case False
  then have nb: "\<not> (\<forall>d\<in>set D. blank (truncated_text d))" by (simp add: collect_lang_docs_empty)
  then have "D \<noteq> []" by auto
  with False have "fst (build_index now_ms D reg) =
        IndexOk (''idx_'' @ str_nat now_ms)
          (length (filter (\<lambda>d. \<not> blank (truncated_text d)) D))"
    by (simp add: build_index_def Let_def collect_lang_docs_length)
  with nb show ?thesis by simp
qed

text \<open>C5 at a blank document followed by a non-blank one, and at the blank one alone.\<close>

theorem C5_witness:
  "fst (build_index 17
      [\<lparr>s_url = Some ''http://a'', s_title = Some ''A'', s_text = Some ''  '', s_metadata = None\<rparr>,
       \<lparr>s_url = Some ''http://b'', s_title = Some ''B'', s_text = Some '' x '', s_metadata = None\<rparr>]
      Map.empty) = IndexOk ''idx_17'' 1 \<and>
   (\<exists>msg. fst (build_index 17
      [\<lparr>s_url = Some ''http://a'', s_title = Some ''A'', s_text = Some ''  '', s_metadata = None\<rparr>]
      Map.empty) = IndexFail msg)"
proof -
  let ?a = "\<lparr>s_url = Some ''http://a'', s_title = Some ''A'', s_text = Some ''  '', s_metadata = None\<rparr>"
  let ?b = "\<lparr>s_url = Some ''http://b'', s_title = Some ''B'', s_text = Some '' x '', s_metadata = None\<rparr>"
  have a: "blank (truncated_text ?a)" by code_simp
  have b: "\<not> blank (truncated_text ?b)" by code_simp
  have n: "str_nat 17 = ''17''" by code_simp
  have nb: "\<not> (\<forall>d\<in>set [?a, ?b]. blank (truncated_text d))" using b by simp
  have ab: "\<forall>d\<in>set [?a]. blank (truncated_text d)" using a by simp
  have "fst (build_index 17 [?a, ?b] Map.empty) = IndexOk ''idx_17'' 1"
    using C5_build_index_empty_iff[of 17 "[?a, ?b]" Map.empty, THEN conjunct2, rule_format, OF nb]
    by (simp add: a b n)
  moreover have "\<exists>msg. fst (build_index 17 [?a] Map.empty) = IndexFail msg"
    using C5_build_index_empty_iff[of 17 "[?a]" Map.empty, THEN conjunct1] ab by blast
  ultimately show ?thesis by blast
qed

section \<open>Growth estimate: the claim\<close>

text \<open>
  Claim C6, as amended. When none of the gross margin, the operating margin, the CAGR and
  the momentum is NaN, \<open>_estimate_growth\<close> returns a number that is at least 0.01
  (infinite inputs included: they are clamped).
\<close>

theorem C6_floor_without_nan:
  assumes "kpi ''gross_margin'' \<noteq> Some NaN" and "kpi ''operating_margin'' \<noteq> Some NaN"
    and "cagr \<noteq> Some NaN" and "momentum \<noteq> Some NaN"
  shows "\<exists>r. estimate_growth kpi momentum cagr = Fin r \<and> 0.01 \<le> r"
  using assms by (rule estimate_growth_floor)

text \<open>The amended C6 at inputs that push every adjustment to its lower bound.\<close>

theorem C6_witness:
  "estimate_growth [''gross_margin'' \<mapsto> Fin (- 5), ''operating_margin'' \<mapsto> NegInf,
      ''p_e_ratio'' \<mapsto> Fin 80] (Some (Fin (- 1))) (Some (Fin (- 1))) = Fin 0.01"
proof -
  let ?k = "[''gross_margin'' \<mapsto> Fin (- 5), ''operating_margin'' \<mapsto> NegInf,
      ''p_e_ratio'' \<mapsto> Fin 80]"
  have h: "?k ''gross_margin'' \<noteq> Some NaN" "?k ''operating_margin'' \<noteq> Some NaN"
    "Some (Fin (- 1)) \<noteq> Some NaN" by simp_all
  from C6_floor_without_nan[OF h(1) h(2) h(3) h(3)]
  obtain r where r: "estimate_growth ?k (Some (Fin (- 1))) (Some (Fin (- 1))) = Fin r" by blast
  have "estimate_growth ?k (Some (Fin (- 1))) (Some (Fin (- 1))) = Fin 0.01"
    by (simp add: estimate_growth_def truthy_def gm_adjust_def om_adjust_def py_max_def
        py_min_def fgt_def fsub_def np_clip_def np_minimum_def np_maximum_def)
  with r show ?thesis by simp
qed

text \<open>
  C6 as stated fails at a NaN gross margin: \<open>max\<close> and \<open>min\<close> return their NaN first
  argument, the sum is NaN and the final \<open>max(base + adj, 0.01)\<close> returns it; NaN is
  not at least 0.01.
\<close>

theorem C6_counterexample:
  "estimate_growth [''gross_margin'' \<mapsto> NaN] None None = NaN \<and>
   \<not> fge (estimate_growth [''gross_margin'' \<mapsto> NaN] None None) (Fin 0.01)"
  by (simp add: estimate_growth_def truthy_def gm_adjust_def py_max_def py_min_def fgt_def
      fsub_def fge_def)

section \<open>Web search: the claim\<close>

lemma find_finer:
  "find P xs = Some x \<Longrightarrow> (\<And>y. Q y \<Longrightarrow> P y) \<Longrightarrow> Q x \<Longrightarrow> find Q xs = Some x"
  by (induction xs) (auto split: if_splits)

lemma web_search_kept:
  "web_search ddg ddgs q n = py_take n (kept {} (raw_results ddg ddgs q n))"
  by (simp add: web_search_def dedupe_loop_kept)

text \<open>
  Claim C7, as amended. For a non-negative \<open>max_results\<close> the output of \<open>web_search\<close>
  has at most \<open>max_results\<close> entries. For every \<open>max_results\<close>: no two entries share a
  de-duplication key (the link, or the title when the link is empty); the entries are in
  the order of the raw hits; and each entry is the first raw hit with its key, hence also
  the first raw hit with its link when it has one.
\<close>

theorem C7_search_dedup_order:
  "(0 \<le> max_results \<longrightarrow> int (length (web_search ddg ddgs q max_results)) \<le> max_results) \<and>
   distinct (map hit_key (web_search ddg ddgs q max_results)) \<and>
   subseq (web_search ddg ddgs q max_results) (raw_results ddg ddgs q max_results) \<and>
   (\<forall>x\<in>set (web_search ddg ddgs q max_results).
      hit_key x \<noteq> [] \<and>
      find (\<lambda>y. hit_key y = hit_key x) (raw_results ddg ddgs q max_results) = Some x \<and>
      (h_link x \<noteq> [] \<longrightarrow>
         find (\<lambda>y. h_link y = h_link x) (raw_results ddg ddgs q max_results) = Some x))"
proof (intro conjI ballI impI)
  let ?raw = "raw_results ddg ddgs q max_results"
  let ?out = "web_search ddg ddgs q max_results"
  show "int (length ?out) \<le> max_results" if "0 \<le> max_results"
    using that by (simp add: web_search_kept py_take_length)
  show "distinct (map hit_key ?out)"
    by (simp add: web_search_kept py_take_distinct kept_distinct)
  have "subseq ?out (kept {} ?raw)"
    by (simp add: web_search_kept py_take_subseq)
  then show "subseq ?out ?raw"
    using kept_subseq[of "{}" ?raw] by (rule subseq_order.trans)
  fix x assume "x \<in> set ?out"
  then have k: "x \<in> set (kept {} ?raw)"
    using py_take_set[of max_results "kept {} ?raw"] by (auto simp: web_search_kept)
  from kept_keys[OF k] show "hit_key x \<noteq> []" by simp
  from kept_first[OF k] show f: "find (\<lambda>y. hit_key y = hit_key x) ?raw = Some x" .
  show "find (\<lambda>y. h_link y = h_link x) ?raw = Some x" if l: "h_link x \<noteq> []"
  proof (rule find_finer[OF f])
    show "h_link x = h_link x" by simp
    fix y :: hit assume "h_link y = h_link x"
    with l show "hit_key y = hit_key x" by (simp add: hit_key_def)
  qed
qed

text \<open>The amended C7 at four raw hits, two of them with the same link, and \<open>max_results = 2\<close>.\<close>

theorem C7_witness:
  "web_search
      (Some (\<lambda>q. ReplyList
         [[''title'' \<mapsto> ''A'', ''href'' \<mapsto> ''http://u1''],
          [''t'' \<mapsto> ''B'', ''url'' \<mapsto> ''http://u1''],
          [''title'' \<mapsto> ''C''],
          [''title'' \<mapsto> ''D'', ''link'' \<mapsto> ''http://u2'']])) None ''acme'' 2 =
     [\<lparr>h_title = ''A'', h_snippet = [], h_link = ''http://u1''\<rparr>,
      \<lparr>h_title = ''C'', h_snippet = [], h_link = []\<rparr>] \<and>
   int (length (web_search
      (Some (\<lambda>q. ReplyList
         [[''title'' \<mapsto> ''A'', ''href'' \<mapsto> ''http://u1''],
          [''t'' \<mapsto> ''B'', ''url'' \<mapsto> ''http://u1''],
          [''title'' \<mapsto> ''C''],
          [''title'' \<mapsto> ''D'', ''link'' \<mapsto> ''http://u2'']])) None ''acme'' 2)) \<le> 2"
proof -
  let ?ddg = "Some (\<lambda>q. ReplyList
         [[''title'' \<mapsto> ''A'', ''href'' \<mapsto> ''http://u1''],
          [''t'' \<mapsto> ''B'', ''url'' \<mapsto> ''http://u1''],
          [''title'' \<mapsto> ''C''],
          [''title'' \<mapsto> ''D'', ''link'' \<mapsto> ''http://u2'']])"
  have le: "(0::int) \<le> 2" by simp
  have ev: "web_search ?ddg None ''acme'' 2 =
     [\<lparr>h_title = ''A'', h_snippet = [], h_link = ''http://u1''\<rparr>,
      \<lparr>h_title = ''C'', h_snippet = [], h_link = []\<rparr>]"
    by code_simp
  from C7_search_dedup_order[of 2 ?ddg None "''acme''", THEN conjunct1, rule_format, OF le] ev
  show ?thesis by blast
qed

text \<open>
  C7 as stated fails at a negative \<open>max_results\<close>: the slice \<open>final[:-1]\<close> drops the
  last of three entries and keeps two, which is more than -1.
\<close>

theorem C7_counterexample:
  "\<not> int (length (web_search
      (Some (\<lambda>q. ReplyList
         [[''title'' \<mapsto> ''A'', ''href'' \<mapsto> ''http://u1''],
          [''title'' \<mapsto> ''B'', ''href'' \<mapsto> ''http://u2''],
          [''title'' \<mapsto> ''C'', ''href'' \<mapsto> ''http://u3'']])) None ''acme'' (- 1))) \<le> - 1"
proof -
  have "web_search
      (Some (\<lambda>q. ReplyList
         [[''title'' \<mapsto> ''A'', ''href'' \<mapsto> ''http://u1''],
          [''title'' \<mapsto> ''B'', ''href'' \<mapsto> ''http://u2''],
          [''title'' \<mapsto> ''C'', ''href'' \<mapsto> ''http://u3'']])) None ''acme'' (- 1) =
     [\<lparr>h_title = ''A'', h_snippet = [], h_link = ''http://u1''\<rparr>,
      \<lparr>h_title = ''B'', h_snippet = [], h_link = ''http://u2''\<rparr>]"
    by code_simp
  then show ?thesis by simp
qed

section \<open>Researcher stage: the claim\<close>





section \<open>Trace: the claim\<close>

text \<open>
  Claim C9, as amended. The researcher, curator and fact-checker stages each append exactly
  two events to the trace: a start event with the stage name and a time (and no count),
  then a done event with the name \<open>stage:done\<close>, a time and a count (the documents for
  the researcher and the curator, the checked claims for the fact checker). No stage, the
  writer included, removes or changes an earlier event: the trace before is a prefix of the
  trace after.
\<close>

theorem C9_trace_appended:
  "trace_of (researcher_node search fetch t0 t1 st) =
     trace_of st @
       [\<lparr>ev_node = ''researcher'', ev_t = t0, ev_docs = None, ev_claims = None\<rparr>,
        \<lparr>ev_node = ''researcher:done'', ev_t = t1,
         ev_docs = Some (length (docs_of (researcher_node search fetch t0 t1 st))),
         ev_claims = None\<rparr>] \<and>
   trace_of (fst (curator_node similar summarize now_ms t0 t1 reg st)) =
     trace_of st @
       [\<lparr>ev_node = ''curator'', ev_t = t0, ev_docs = None, ev_claims = None\<rparr>,
        \<lparr>ev_node = ''curator:done'', ev_t = t1,
         ev_docs = Some (length (docs_of (fst (curator_node similar summarize now_ms t0 t1 reg st)))),
         ev_claims = None\<rparr>] \<and>
   trace_of (fact_checker_node extract_claims min_overlap t0 t1 st) =
     trace_of st @
       [\<lparr>ev_node = ''fact_checker'', ev_t = t0, ev_docs = None, ev_claims = None\<rparr>,
        \<lparr>ev_node = ''fact_checker:done'', ev_t = t1, ev_docs = None,
         ev_claims = Some (length (checked_of (fact_checker_node extract_claims min_overlap t0 t1 st)))\<rparr>] \<and>
   prefix (trace_of st) (trace_of (writer_node out st))"
proof (intro conjI)
  show "trace_of (researcher_node search fetch t0 t1 st) =
     trace_of st @
       [\<lparr>ev_node = ''researcher'', ev_t = t0, ev_docs = None, ev_claims = None\<rparr>,
        \<lparr>ev_node = ''researcher:done'', ev_t = t1,
         ev_docs = Some (length (docs_of (researcher_node search fetch t0 t1 st))),
         ev_claims = None\<rparr>]"
    by (simp add: researcher_node_def Let_def trace_of_def docs_of_def start_event_def)
  show "trace_of (fst (curator_node similar summarize now_ms t0 t1 reg st)) =
     trace_of st @
       [\<lparr>ev_node = ''curator'', ev_t = t0, ev_docs = None, ev_claims = None\<rparr>,
        \<lparr>ev_node = ''curator:done'', ev_t = t1,
         ev_docs = Some (length (docs_of (fst (curator_node similar summarize now_ms t0 t1 reg st)))),
         ev_claims = None\<rparr>]"
    by (cases "curator_select similar now_ms reg (get_or_empty (st_query st)) (docs_of st)")
       (simp add: curator_node_def Let_def trace_of_def docs_of_def start_event_def)
  show "trace_of (fact_checker_node extract_claims min_overlap t0 t1 st) =
     trace_of st @
       [\<lparr>ev_node = ''fact_checker'', ev_t = t0, ev_docs = None, ev_claims = None\<rparr>,
        \<lparr>ev_node = ''fact_checker:done'', ev_t = t1, ev_docs = None,
         ev_claims = Some (length (checked_of (fact_checker_node extract_claims min_overlap t0 t1 st)))\<rparr>]"
    by (simp add: fact_checker_node_def Let_def trace_of_def checked_of_def start_event_def)
  show "prefix (trace_of st) (trace_of (writer_node out st))"
    by (simp add: writer_node_def trace_of_def)
qed

text \<open>
  C9 as stated fails: the writer stage appends no event, and a start event carries
  neither a document count nor a claim count.
\<close>

theorem C9_counterexample:
  "trace_of (writer_node ''outputs/report_1.html''
      \<lparr>st_query = Some ''NVIDIA outlook'', st_ticker = Some ''NVDA'', st_web_results = Some [],
       st_docs = Some [], st_summary = Some ''s'', st_claims = Some [],
       st_checked_claims = Some [], st_report_html = None,
       st_trace = Some [\<lparr>ev_node = ''fact_checker:done'', ev_t = 3, ev_docs = None,
                          ev_claims = Some 0\<rparr>]\<rparr>) =
     [\<lparr>ev_node = ''fact_checker:done'', ev_t = 3, ev_docs = None, ev_claims = Some 0\<rparr>] \<and>
   ev_docs (start_event ''researcher'' 1) = None \<and>
   ev_claims (start_event ''researcher'' 1) = None"
  by (simp add: writer_node_def trace_of_def start_event_def)

section \<open>KPI aggregation: the claim\<close>

text \<open>Inside \<open>kpi_web_fallback\<close> a value once found is never replaced.\<close>

lemma fill_keeps: "results k = Some v \<Longrightarrow> fill results other k = Some v"
  by (simp add: fill_def)

lemma fallback_loop_keeps:
  "results k = Some v \<Longrightarrow> fallback_loop extract fetch hs results k = Some v"
  by (induction hs arbitrary: results) (auto simp: Let_def fill_keeps)

text \<open>
  Claim C2 does not hold of the writer stage. The document text gives the P/E ratio 10,
  a KPI is missing, so the fallback runs and finds the P/E ratio 25 in a search snippet;
  \<open>kpi.update(fb)\<close> then replaces the extracted 10 by 25.
\<close>

theorem C2_writer_overwrites:
  "(\<lambda>t. if t = ''P/E ratio: 10'' then [''p_e_ratio'' \<mapsto> Fin 10]
         else if t = ''P/E ratio: 25'' then [''p_e_ratio'' \<mapsto> Fin 25] else Map.empty)
     (writer_agg (docs_of
        \<lparr>st_query = Some ''ACME outlook'', st_ticker = Some ''ACME'', st_web_results = Some [],
         st_docs = Some [\<lparr>s_url = Some ''http://a'', s_title = Some ''A'',
                           s_text = Some ''P/E ratio: 10'', s_metadata = None\<rparr>],
         st_summary = Some ''s'', st_claims = Some [], st_checked_claims = Some [],
         st_report_html = None, st_trace = None\<rparr>)) ''p_e_ratio'' = Some (Fin 10) \<and>
   writer_kpi
     (\<lambda>t. if t = ''P/E ratio: 10'' then [''p_e_ratio'' \<mapsto> Fin 10]
           else if t = ''P/E ratio: 25'' then [''p_e_ratio'' \<mapsto> Fin 25] else Map.empty)
     (kpi_web_fallback
        (\<lambda>q n. [\<lparr>h_title = ''ACME ratios'', h_snippet = ''P/E ratio: 25'', h_link = []\<rparr>])
        (\<lambda>u t. \<lparr>f_url = u, f_status = 0, f_title = [], f_text = [], f_error = Some ''down''\<rparr>)
        (\<lambda>t. if t = ''P/E ratio: 10'' then [''p_e_ratio'' \<mapsto> Fin 10]
              else if t = ''P/E ratio: 25'' then [''p_e_ratio'' \<mapsto> Fin 25] else Map.empty)
        (\<lambda>t. Map.empty))
     \<lparr>st_query = Some ''ACME outlook'', st_ticker = Some ''ACME'', st_web_results = Some [],
      st_docs = Some [\<lparr>s_url = Some ''http://a'', s_title = Some ''A'',
                        s_text = Some ''P/E ratio: 10'', s_metadata = None\<rparr>],
      st_summary = Some ''s'', st_claims = Some [], st_checked_claims = Some [],
      st_report_html = None, st_trace = None\<rparr> ''p_e_ratio'' = Some (Fin 25)"
  by (simp add: writer_kpi_def kpi_web_fallback_def writer_agg_def docs_of_def get_or_empty_def
      has_all_def four_kpis_def fill_def Let_def)

end
